theory Spec2Isabelle
  imports Complex_Main "HOL-Library.Word"
begin

unbundle bit_operations_syntax

section \<open>Binaural pathfinder: the evolutionary path search of main.js\<close>

text \<open>
  The file \<^verbatim>\<open>src/main.js\<close> holds two versions of the script one after the other.  The
  second one (from line 522) extends the first by the targeting mode \<^verbatim>\<open>TARGET\<close> and by
  \<^verbatim>\<open>jitterSpeakers\<close>; with \<^verbatim>\<open>TARGET = 'either'\<close> and no jitter it is the first one.
  The definitions below follow the second version.

  JavaScript numbers are modelled as real numbers: rounding of IEEE doubles is not
  part of the model.  The state \<^verbatim>\<open>s\<close> of the generator is a 32-bit word, as the
  bitwise operators of JavaScript make it.
\<close>

subsection \<open>Utilities\<close>

definition lerp :: "real \<Rightarrow> real \<Rightarrow> real \<Rightarrow> real" where
  "lerp a b t = a + (b - a) * t"

definition clamp :: "real \<Rightarrow> real \<Rightarrow> real \<Rightarrow> real" where
  "clamp v lo hi = max lo (min hi v)"

subsection \<open>The generator: seedRandom\<close>

type_synonym rng = "32 word"

text \<open>\<^verbatim>\<open>let s = seed >>> 0\<close>: the seed as an unsigned 32-bit integer.\<close>

definition seedRandom :: "int \<Rightarrow> rng" where
  "seedRandom seed = word_of_int seed"

text \<open>
  \<^verbatim>\<open>s ^= s << 13; s ^= s >>> 17; s ^= s << 5\<close>.  The operators work on the 32 bits of
  \<^verbatim>\<open>s\<close>; \<^verbatim>\<open>>>>\<close> is the logical shift.
\<close>

definition xorshift32 :: "rng \<Rightarrow> rng" where
  "xorshift32 s =
     (let s1 = s XOR push_bit 13 s;
          s2 = s1 XOR drop_bit 17 s1;
          s3 = s2 XOR push_bit 5 s2
      in s3)"

text \<open>
  One call of the closure \<^verbatim>\<open>rand\<close>: the value \<^verbatim>\<open>(s >>> 0) / 4294967296\<close> and the new
  state.
\<close>

definition rand :: "rng \<Rightarrow> real \<times> rng" where
  "rand s = (let s' = xorshift32 s in (real (unat s') / 4294967296, s'))"

text \<open>The first \<open>n\<close> values of a generator, in the order of the calls.\<close>

fun rand_stream :: "nat \<Rightarrow> rng \<Rightarrow> real list" where
  "rand_stream 0 s = []"
| "rand_stream (Suc n) s = (let (r, s') = rand s in r # rand_stream n s')"

text \<open>The state after \<open>n\<close> calls.\<close>

fun rand_state :: "nat \<Rightarrow> rng \<Rightarrow> rng" where
  "rand_state 0 s = s"
| "rand_state (Suc n) s = rand_state n (snd (rand s))"

subsection \<open>Vectors and the field\<close>

text \<open>
  \<^verbatim>\<open>THREE.Vector3\<close>, with the operations the script uses: \<^verbatim>\<open>clone\<close>, \<^verbatim>\<open>addVectors\<close>,
  \<^verbatim>\<open>subVectors\<close>, \<^verbatim>\<open>multiplyScalar\<close> and \<^verbatim>\<open>distanceTo\<close> (the Euclidean distance).
\<close>

record vec3 =
  x :: real
  y :: real
  z :: real

definition Vector3 :: "real \<Rightarrow> real \<Rightarrow> real \<Rightarrow> vec3" where
  "Vector3 a b c = \<lparr>x = a, y = b, z = c\<rparr>"

definition clone :: "vec3 \<Rightarrow> vec3" where
  "clone p = Vector3 (x p) (y p) (z p)"

definition addVectors :: "vec3 \<Rightarrow> vec3 \<Rightarrow> vec3" where
  "addVectors a b = Vector3 (x a + x b) (y a + y b) (z a + z b)"

definition subVectors :: "vec3 \<Rightarrow> vec3 \<Rightarrow> vec3" where
  "subVectors a b = Vector3 (x a - x b) (y a - y b) (z a - z b)"

definition multiplyScalar :: "vec3 \<Rightarrow> real \<Rightarrow> vec3" where
  "multiplyScalar a k = Vector3 (x a * k) (y a * k) (z a * k)"

definition distanceTo :: "vec3 \<Rightarrow> vec3 \<Rightarrow> real" where
  "distanceTo a b =
     sqrt ((x a - x b) * (x a - x b) + (y a - y b) * (y a - y b) + (z a - z b) * (z a - z b))"

definition intensityAtPoint :: "vec3 \<Rightarrow> vec3 \<Rightarrow> real \<Rightarrow> real" where
  "intensityAtPoint point speakerPos pwr =
     (let d = distanceTo point speakerPos + 0.2;
          I = pwr / (d * d)
      in I)"

text \<open>
  The choice of the reward of one sample in \<^verbatim>\<open>evaluateFitness\<close>:
  \<^verbatim>\<open>if (TARGET === 'left') loud = Il; else if (TARGET === 'right') loud = Ir;
  else loud = Math.max(Il, Ir);\<close>
\<close>

definition loud :: "string \<Rightarrow> real \<Rightarrow> real \<Rightarrow> real" where
  "loud target Il Ir =
     (if target = ''left'' then Il else if target = ''right'' then Ir else max Il Ir)"

text \<open>\<^verbatim>\<open>let TARGET = 'either'\<close>: the mode the script starts with.\<close>

definition TARGET_default :: string where
  "TARGET_default = ''either''"

subsection \<open>The world, the parameters and the genomes\<close>

text \<open>
  \<^verbatim>\<open>WORLD\<close> (without \<^verbatim>\<open>width\<close> and \<^verbatim>\<open>depth\<close>, which only the ground mesh reads).
  \<^verbatim>\<open>baseSpeakerL\<close> and \<^verbatim>\<open>baseSpeakerR\<close> are absent until \<^verbatim>\<open>init\<close> stores them.
\<close>

record world =
  A :: vec3
  B :: vec3
  speakerL :: vec3
  speakerR :: vec3
  baseSpeakerL :: "vec3 option"
  baseSpeakerR :: "vec3 option"

definition WORLD_initial :: world where
  "WORLD_initial =
     \<lparr>A = Vector3 (-16) 0 10, B = Vector3 16 0 (-8),
      speakerL = Vector3 (-10) 0 (-6), speakerR = Vector3 12 0 6,
      baseSpeakerL = None, baseSpeakerR = None\<rparr>"

text \<open>\<^verbatim>\<open>PARAMS\<close> (without \<^verbatim>\<open>autoplay\<close>, which nothing reads).\<close>

record params =
  popSize :: nat
  ctrlCount :: nat
  mutationProb :: real
  mutationScale :: real
  crossProb :: real
  stepsPerPath :: nat
  generations :: nat

definition PARAMS :: params where
  "PARAMS =
     \<lparr>popSize = 28, ctrlCount = 4, mutationProb = 0.25, mutationScale = 4.0,
      crossProb = 0.8, stepsPerPath = 140, generations = 45\<rparr>"

text \<open>
  The field \<^verbatim>\<open>fitness\<close> of a genome is \<^verbatim>\<open>-Infinity\<close> until the genome is evaluated.
\<close>

datatype fit = NegInfinity | Fin real

record genome =
  ctrl :: "vec3 list"
  fitness :: fit

text \<open>The comparison \<^verbatim>\<open>a > b\<close> of two fitness values.\<close>

fun fit_gt :: "fit \<Rightarrow> fit \<Rightarrow> bool" where
  "fit_gt (Fin a) (Fin b) = (a > b)"
| "fit_gt (Fin a) NegInfinity = True"
| "fit_gt NegInfinity b = False"

definition fit_le :: "fit \<Rightarrow> fit \<Rightarrow> bool" where
  "fit_le a b = (\<not> fit_gt a b)"

definition cloneGenome :: "genome \<Rightarrow> genome" where
  "cloneGenome g = \<lparr>ctrl = map clone (ctrl g), fitness = fitness g\<rparr>"

subsection \<open>The curve builder: pathPoints\<close>

text \<open>\<^verbatim>\<open>THREE.CubicBezierCurve3(v0, v1, v2, v3)\<close>.\<close>

record bezier =
  v0 :: vec3
  v1 :: vec3
  v2 :: vec3
  v3 :: vec3

text \<open>
  The body of the loop over \<open>i\<close> in \<^verbatim>\<open>pathPoints\<close>: the curve of the segment from
  \<open>pts[i]\<close> to \<open>pts[i+1]\<close>.  \<^verbatim>\<open>Math.max(0, i-1)\<close> is \<open>i - 1\<close> on natural numbers.
\<close>

definition segment_curve :: "vec3 list \<Rightarrow> nat \<Rightarrow> bezier" where
  "segment_curve pts i =
     (let p0 = pts ! (max 0 (i - 1));
          p1 = pts ! i;
          p2 = pts ! (i + 1);
          p3 = pts ! (min (length pts - 1) (i + 2));
          t = 0.5;
          cp1 = addVectors p1 (multiplyScalar (subVectors p2 p0) (t / 3));
          cp2 = addVectors p2 (multiplyScalar (subVectors p1 p3) (t / 3))
      in \<lparr>v0 = clone p1, v1 = cp1, v2 = cp2, v3 = clone p2\<rparr>)"

text \<open>The loop \<^verbatim>\<open>for (let i = 0; i < pts.length - 1; i++)\<close> that fills \<^verbatim>\<open>curves\<close>.\<close>

definition curves_of :: "vec3 list \<Rightarrow> bezier list" where
  "curves_of pts = map (segment_curve pts) [0..<length pts - 1]"

text \<open>\<^verbatim>\<open>const pts = [WORLD.A, ...genome.ctrl, WORLD.B]\<close> and its curves.\<close>

definition path_curves :: "world \<Rightarrow> genome \<Rightarrow> bezier list" where
  "path_curves W g = curves_of ([A W] @ ctrl g @ [B W])"

text \<open>
  three.js is loaded by the page; it is not among the sources.
  \<^verbatim>\<open>CurvePath.getSpacedPoints(divisions)\<close> is modelled as its documentation gives it:
  the \<open>divisions + 1\<close> points \<^verbatim>\<open>getPoint(i / divisions)\<close> for \<open>i = 0, \<dots>, divisions\<close>
  (\<^verbatim>\<open>autoClose\<close> is false for a new path).  What \<^verbatim>\<open>getPoint\<close> returns, the point of the
  path at a fraction of its arc length, is a parameter of the model.  The model is for
  \<open>divisions > 0\<close>, and the script asks for 80, 140 and 180.  For 0 divisions the one
  fraction \<open>0 / 0\<close> is not a number in JavaScript and the library returns \<^verbatim>\<open>[null]\<close>,
  a list without a point, which this definition does not represent.
\<close>

type_synonym getPoint = "bezier list \<Rightarrow> real \<Rightarrow> vec3"

definition getSpacedPoints :: "getPoint \<Rightarrow> bezier list \<Rightarrow> nat \<Rightarrow> vec3 list" where
  "getSpacedPoints gp curves divisions =
     map (\<lambda>i. gp curves (real i / real divisions)) [0..<divisions + 1]"

definition pathPoints :: "getPoint \<Rightarrow> world \<Rightarrow> genome \<Rightarrow> nat \<Rightarrow> vec3 list" where
  "pathPoints gp W g steps = getSpacedPoints gp (path_curves W g) steps"

subsection \<open>The fitness evaluator: evaluateFitness\<close>

text \<open>
  The loop \<^verbatim>\<open>for (let i = 0; i < pts.length; i++)\<close> with its two accumulators
  \<^verbatim>\<open>sum\<close> and \<^verbatim>\<open>len\<close>.
\<close>

function fitness_loop ::
  "world \<Rightarrow> string \<Rightarrow> vec3 list \<Rightarrow> nat \<Rightarrow> real \<Rightarrow> real \<Rightarrow> real \<times> real" where
  "fitness_loop W target pts i sum_acc len_acc =
     (if i < length pts then
        (let p = pts ! i;
             Il = intensityAtPoint p (speakerL W) 1.0;
             Ir = intensityAtPoint p (speakerR W) 1.0;
             sum_acc' = sum_acc + loud target Il Ir;
             len_acc' = (if i > 0 then len_acc + distanceTo (pts ! (i - 1)) p else len_acc)
         in fitness_loop W target pts (i + 1) sum_acc' len_acc')
      else (sum_acc, len_acc))"
  by pat_completeness auto
termination
  by (relation "measure (\<lambda>(W, target, pts, i, sum_acc, len_acc). length pts - i)") auto

text \<open>
  \<^verbatim>\<open>evaluateFitness(genome)\<close> returns the fitness and stores it in the genome: the
  result is the returned number and the genome after the call.
\<close>

definition evaluateFitness :: "getPoint \<Rightarrow> world \<Rightarrow> string \<Rightarrow> genome \<Rightarrow> real \<times> genome" where
  "evaluateFitness gp W target g =
     (let pts = pathPoints gp W g 80;
          (sum_acc, len_acc) = fitness_loop W target pts 0 0 0;
          distanceCost = len_acc / 80;
          goalBonus = 1.0;
          fit_val = sum_acc - 0.25 * distanceCost + goalBonus
      in (fit_val, g\<lparr>fitness := Fin fit_val\<rparr>))"

text \<open>
  The fitness as the specification words it: \<open>S - \<lambda> * (len / sampleSteps) + goalBonus\<close>,
  with \<open>S\<close> the sum of the rewards of the sampled points and \<open>len\<close> the sum of the
  distances between consecutive sampled points.
\<close>

definition reward_sum :: "world \<Rightarrow> string \<Rightarrow> vec3 list \<Rightarrow> real" where
  "reward_sum W target pts =
     (\<Sum>p\<leftarrow>pts. loud target (intensityAtPoint p (speakerL W) 1) (intensityAtPoint p (speakerR W) 1))"

definition path_length :: "vec3 list \<Rightarrow> real" where
  "path_length pts = (\<Sum>(p, q)\<leftarrow>zip pts (tl pts). distanceTo p q)"

definition spec_fitness :: "real \<Rightarrow> real \<Rightarrow> real \<Rightarrow> real \<Rightarrow> real \<Rightarrow> real" where
  "spec_fitness lam sampleSteps goalBonus S len = S - lam * (len / sampleSteps) + goalBonus"

subsection \<open>Repositioning the sources: jitterSpeakers\<close>

text \<open>\<^verbatim>\<open>const j = () => (rand()*2 - 1) * amount\<close>.\<close>

definition jitter :: "real \<Rightarrow> rng \<Rightarrow> real \<times> rng" where
  "jitter amount s = (let (r, s') = rand s in ((r * 2 - 1) * amount, s'))"

text \<open>
  The positions before the separation check: the four calls of \<^verbatim>\<open>j\<close> in the order
  of the source.
\<close>

definition jittered :: "real \<Rightarrow> world \<Rightarrow> rng \<Rightarrow> (vec3 \<times> vec3) \<times> rng" where
  "jittered amount W s =
     (let baseL = (case baseSpeakerL W of Some b \<Rightarrow> b | None \<Rightarrow> clone (speakerL W));
          baseR = (case baseSpeakerR W of Some b \<Rightarrow> b | None \<Rightarrow> clone (speakerR W));
          (j1, s1) = jitter amount s;
          (j2, s2) = jitter amount s1;
          (j3, s3) = jitter amount s2;
          (j4, s4) = jitter amount s3
      in ((Vector3 (x baseL + j1) 0 (z baseL + j2), Vector3 (x baseR + j3) 0 (z baseR + j4)), s4))"

definition minDist :: real where
  "minDist = 6.0"

text \<open>
  \<^verbatim>\<open>jitterSpeakers(amount)\<close>, without the updates of the scene objects and of the
  camera that follow the check.
\<close>

definition jitterSpeakers :: "real \<Rightarrow> world \<Rightarrow> rng \<Rightarrow> world \<times> rng" where
  "jitterSpeakers amount W s =
     (let ((spL, spR), s') = jittered amount W s;
          spR' = (if distanceTo spL spR < minDist then
                    (if x spR \<le> x spL then spR\<lparr>x := x spL + minDist\<rparr>
                     else spR\<lparr>x := x spL - minDist\<rparr>)
                  else spR)
      in (W\<lparr>speakerL := spL, speakerR := spR'\<rparr>, s'))"

subsection \<open>The same in the arithmetic of doubles\<close>









subsection \<open>Genomes and populations\<close>

text \<open>
  \<^verbatim>\<open>makeGenome\<close>: the loop over \<open>i = 0, \<dots>, ctrlCount - 1\<close>; the random number of the
  first coordinate is drawn before the one of the third.
\<close>

fun makeGenome_loop ::
  "params \<Rightarrow> world \<Rightarrow> nat list \<Rightarrow> vec3 list \<Rightarrow> rng \<Rightarrow> vec3 list \<times> rng" where
  "makeGenome_loop P W [] pts s = (pts, s)"
| "makeGenome_loop P W (i # is) pts s =
     (let (r1, s1) = rand s;
          (r2, s2) = rand s1;
          p = Vector3
                (lerp (x (A W)) (x (B W)) ((real i + 1) / (real (ctrlCount P) + 1)) + (r1 * 2 - 1) * 8)
                0
                (lerp (z (A W)) (z (B W)) ((real i + 1) / (real (ctrlCount P) + 1)) + (r2 * 2 - 1) * 6)
      in makeGenome_loop P W is (pts @ [p]) s2)"

definition makeGenome :: "params \<Rightarrow> world \<Rightarrow> rng \<Rightarrow> genome \<times> rng" where
  "makeGenome P W s =
     (let (pts, s') = makeGenome_loop P W [0..<ctrlCount P] [] s
      in (\<lparr>ctrl = pts, fitness = NegInfinity\<rparr>, s'))"

text \<open>
  \<^verbatim>\<open>makeInitialPopulation\<close>: the body of its loop does not read \<open>i\<close>, so the
  recursion counts the iterations that are left.
\<close>

fun makeInitialPopulation_loop ::
  "params \<Rightarrow> world \<Rightarrow> nat \<Rightarrow> genome list \<Rightarrow> rng \<Rightarrow> genome list \<times> rng" where
  "makeInitialPopulation_loop P W 0 pop s = (pop, s)"
| "makeInitialPopulation_loop P W (Suc n) pop s =
     (let (g, s') = makeGenome P W s
      in makeInitialPopulation_loop P W n (pop @ [g]) s')"

definition makeInitialPopulation :: "params \<Rightarrow> world \<Rightarrow> rng \<Rightarrow> genome list \<times> rng" where
  "makeInitialPopulation P W s = makeInitialPopulation_loop P W (popSize P) [] s"

subsection \<open>The evolutionary operators\<close>

text \<open>
  Reading an array: \<^verbatim>\<open>undefined\<close> (here \<open>None\<close>) outside its range.  Reading a field
  of \<^verbatim>\<open>undefined\<close> or \<^verbatim>\<open>null\<close> throws a TypeError; a function that can throw
  returns an option, and \<open>None\<close> is the exception.
\<close>

definition nth_opt :: "'a list \<Rightarrow> nat \<Rightarrow> 'a option" where
  "nth_opt xs i = (if i < length xs then Some (xs ! i) else None)"

text \<open>
  \<^verbatim>\<open>(rand() * pop.length) | 0\<close>: the integer part of a number that is not negative
  (an array has fewer than \<open>2 ^ 31\<close> elements here).
\<close>

definition random_index :: "real \<Rightarrow> nat \<Rightarrow> nat" where
  "random_index r n = nat \<lfloor>r * real n\<rfloor>"

text \<open>
  The loop of \<^verbatim>\<open>tournamentSelect\<close>, counting the iterations that are left;
  \<open>best\<close> is \<open>None\<close> while it is \<^verbatim>\<open>null\<close> or \<^verbatim>\<open>undefined\<close>.
\<close>

fun tournament_loop ::
  "genome list \<Rightarrow> nat \<Rightarrow> genome option \<Rightarrow> rng \<Rightarrow> (genome option \<times> rng) option" where
  "tournament_loop pop 0 best s = Some (best, s)"
| "tournament_loop pop (Suc k) best s =
     (let (r, s') = rand s;
          g = nth_opt pop (random_index r (length pop))
      in case best of
           None \<Rightarrow> tournament_loop pop k g s'
         | Some b \<Rightarrow>
             (case g of
                None \<Rightarrow> None
              | Some g' \<Rightarrow>
                  tournament_loop pop k (if fit_gt (fitness g') (fitness b) then g else best) s'))"

definition tournamentSelect :: "genome list \<Rightarrow> nat \<Rightarrow> rng \<Rightarrow> (genome \<times> rng) option" where
  "tournamentSelect pop k s =
     (case tournament_loop pop k None s of
        None \<Rightarrow> None
      | Some (None, s') \<Rightarrow> None
      | Some (Some best, s') \<Rightarrow> Some (cloneGenome best, s'))"

text \<open>\<^verbatim>\<open>crossover(a, b)\<close>: the loop over \<open>i = 0, \<dots>, ctrlCount - 1\<close>.\<close>

fun crossover_loop ::
  "genome \<Rightarrow> genome \<Rightarrow> nat list \<Rightarrow> vec3 list \<Rightarrow> rng \<Rightarrow> (vec3 list \<times> rng) option" where
  "crossover_loop a b [] pts s = Some (pts, s)"
| "crossover_loop a b (i # is) pts s =
     (let (r, s1) = rand s;
          pickA = (r < 0.5);
          (t, s2) = rand s1
      in case (nth_opt (ctrl a) i, nth_opt (ctrl b) i) of
           (Some pa, Some pb) \<Rightarrow>
             (let cx = (if pickA then lerp (x pa) (x pb) t else lerp (x pb) (x pa) t);
                  cz = (if pickA then lerp (z pa) (z pb) t else lerp (z pb) (z pa) t)
              in crossover_loop a b is (pts @ [Vector3 cx 0 cz]) s2)
         | _ \<Rightarrow> None)"

definition crossover :: "params \<Rightarrow> genome \<Rightarrow> genome \<Rightarrow> rng \<Rightarrow> (genome \<times> rng) option" where
  "crossover P a b s =
     (case crossover_loop a b [0..<ctrlCount P] [] s of
        None \<Rightarrow> None
      | Some (pts, s') \<Rightarrow> Some (\<lparr>ctrl = pts, fitness = NegInfinity\<rparr>, s'))"

text \<open>
  \<^verbatim>\<open>mutate(g)\<close>: the loop over the control points of the clone \<open>m\<close>, each replaced
  in its place.
\<close>

fun mutate_loop :: "params \<Rightarrow> vec3 list \<Rightarrow> rng \<Rightarrow> vec3 list \<times> rng" where
  "mutate_loop P [] s = ([], s)"
| "mutate_loop P (p # ps) s =
     (let (r, s1) = rand s
      in if r < mutationProb P then
           (let (rx, s2) = rand s1;
                (rz, s3) = rand s2;
                p' = p\<lparr>x := x p + (rx * 2 - 1) * mutationScale P,
                       z := z p + (rz * 2 - 1) * mutationScale P * 0.8\<rparr>;
                (ps', s4) = mutate_loop P ps s3
            in (p' # ps', s4))
         else
           (let (ps', s2) = mutate_loop P ps s1
            in (p # ps', s2)))"

definition mutate :: "params \<Rightarrow> genome \<Rightarrow> rng \<Rightarrow> genome \<times> rng" where
  "mutate P g s =
     (let m = cloneGenome g;
          (pts, s') = mutate_loop P (ctrl m) s
      in (m\<lparr>ctrl := pts\<rparr>, s'))"

text \<open>
  \<^verbatim>\<open>sort((a, b) => b.fitness - a.fitness)\<close>: the sort of an array is stable, so the
  genomes come in descending fitness and those of equal fitness keep their order.
\<close>

fun insert_desc :: "genome \<Rightarrow> genome list \<Rightarrow> genome list" where
  "insert_desc g [] = [g]"
| "insert_desc g (h # hs) =
     (if fit_gt (fitness h) (fitness g) then h # insert_desc g hs else g # h # hs)"

definition sort_desc :: "genome list \<Rightarrow> genome list" where
  "sort_desc pop = foldr insert_desc pop []"

text \<open>\<^verbatim>\<open>pop.forEach(evaluateFitness)\<close>: every genome gets its fitness.\<close>

definition evaluate_all :: "getPoint \<Rightarrow> world \<Rightarrow> string \<Rightarrow> genome list \<Rightarrow> genome list" where
  "evaluate_all gp W target pop = map (\<lambda>g. snd (evaluateFitness gp W target g)) pop"

subsection \<open>The evolution driver: runEvolution and stepGen\<close>

text \<open>
  The variables of the script that a run reads and writes.  \<open>rand_s\<close> is the state of
  the generator that the variable \<^verbatim>\<open>rand\<close> holds.
\<close>

record global =
  WORLD :: world
  TARGET :: string
  population :: "genome list"
  gen :: nat
  rand_s :: rng
  running :: bool
  lastBest :: "genome option"

text \<open>
  One offspring of \<^verbatim>\<open>stepGen\<close>: two tournaments, crossover with probability
  \<^verbatim>\<open>crossProb\<close> or else a clone of one parent, then mutation.
\<close>

definition offspring :: "params \<Rightarrow> genome list \<Rightarrow> rng \<Rightarrow> (genome \<times> rng) option" where
  "offspring P pop s =
     (case tournamentSelect pop 3 s of
        None \<Rightarrow> None
      | Some (p1, s1) \<Rightarrow>
          (case tournamentSelect pop 3 s1 of
             None \<Rightarrow> None
           | Some (p2, s2) \<Rightarrow>
               (let (r, s3) = rand s2
                in case (if r < crossProb P then crossover P p1 p2 s3
                         else (let (r', s4) = rand s3
                               in Some (if r' < 0.5 then cloneGenome p1 else cloneGenome p2, s4))) of
                     None \<Rightarrow> None
                   | Some (c, s5) \<Rightarrow> Some (mutate P c s5))))"

text \<open>\<^verbatim>\<open>while (newPop.length < PARAMS.popSize)\<close>.\<close>

function offspring_loop ::
  "params \<Rightarrow> genome list \<Rightarrow> genome list \<Rightarrow> rng \<Rightarrow> (genome list \<times> rng) option" where
  "offspring_loop P pop newPop s =
     (if length newPop < popSize P then
        (case offspring P pop s of
           None \<Rightarrow> None
         | Some (c, s') \<Rightarrow> offspring_loop P pop (newPop @ [c]) s')
      else Some (newPop, s))"
  by pat_completeness auto
termination
  by (relation "measure (\<lambda>(P, pop, newPop, s). popSize P - length newPop)") auto

text \<open>
  The body of \<^verbatim>\<open>stepGen\<close> when \<open>i < generations\<close>: elitism, the offspring, their
  evaluation and sort, and the update of \<^verbatim>\<open>lastBest\<close>.
\<close>

definition next_generation :: "params \<Rightarrow> getPoint \<Rightarrow> global \<Rightarrow> global option" where
  "next_generation P gp G =
     (case population G of
        [] \<Rightarrow> None
      | elite # _ \<Rightarrow>
          (case offspring_loop P (population G) [cloneGenome elite] (rand_s G) of
             None \<Rightarrow> None
           | Some (newPop, s') \<Rightarrow>
               (case sort_desc (evaluate_all gp (WORLD G) (TARGET G) newPop) of
                  [] \<Rightarrow> None
                | head # rest \<Rightarrow>
                    Some (G\<lparr>gen := gen G + 1,
                            population := head # rest,
                            rand_s := s',
                            lastBest :=
                              (case lastBest G of
                                 None \<Rightarrow> Some (cloneGenome head)
                               | Some lb \<Rightarrow>
                                   if fit_gt (fitness head) (fitness lb)
                                   then Some (cloneGenome head) else Some lb)\<rparr>))))"

text \<open>
  The calls of \<^verbatim>\<open>stepGen\<close>, the first one by \<^verbatim>\<open>runEvolution\<close> and each next one by
  the timer of the one before, with no other event of the page in between.  The
  result is the list of the states after each call; the last call, with
  \<open>i \<ge> generations\<close>, only clears \<^verbatim>\<open>running\<close>.
\<close>

function stepGen :: "params \<Rightarrow> getPoint \<Rightarrow> nat \<Rightarrow> global \<Rightarrow> global list option" where
  "stepGen P gp i G =
     (if i \<ge> generations P then Some [G\<lparr>running := False\<rparr>]
      else
        (case next_generation P gp G of
           None \<Rightarrow> None
         | Some G' \<Rightarrow> map_option ((#) G') (stepGen P gp (i + 1) G')))"
  by pat_completeness auto
termination
  by (relation "measure (\<lambda>(P, gp, i, G). generations P - i)") auto

text \<open>
  \<^verbatim>\<open>(Math.random() * 1e9) | 0\<close> for the number \<open>r\<close> that \<^verbatim>\<open>Math.random()\<close> returns
  (not negative and below 1).
\<close>

definition seed_of :: "real \<Rightarrow> int" where
  "seed_of r = \<lfloor>r * 1000000000\<rfloor>"

text \<open>
  \<^verbatim>\<open>runEvolution(play, target)\<close> up to its call of \<^verbatim>\<open>stepGen\<close>: the new generator,
  the jitter of the sources on a reseed, the mode, and the first population,
  evaluated and sorted.
\<close>

definition start_run ::
  "params \<Rightarrow> getPoint \<Rightarrow> real \<Rightarrow> bool \<Rightarrow> string \<Rightarrow> global \<Rightarrow> global option" where
  "start_run P gp r play target G =
     (let s0 = seedRandom (seed_of r);
          (W, s1) = (if \<not> play then jitterSpeakers 2.5 (WORLD G) s0 else (WORLD G, s0));
          tgt = (if target = [] then TARGET G else target);
          (pop, s2) = makeInitialPopulation P W s1
      in case sort_desc (evaluate_all gp W tgt pop) of
           [] \<Rightarrow> None
         | head # rest \<Rightarrow>
             Some (G\<lparr>WORLD := W, TARGET := tgt, population := head # rest, gen := 0,
                     rand_s := s2, running := True, lastBest := Some (cloneGenome head)\<rparr>))"

text \<open>
  A run: the states after the first evaluation and after each call of \<^verbatim>\<open>stepGen\<close>.
  A call while a run is going on returns at once.
\<close>

definition runEvolution ::
  "params \<Rightarrow> getPoint \<Rightarrow> real \<Rightarrow> bool \<Rightarrow> string \<Rightarrow> global \<Rightarrow> global list option" where
  "runEvolution P gp r play target G =
     (if running G then Some []
      else
        (case start_run P gp r play target G of
           None \<Rightarrow> None
         | Some G0 \<Rightarrow> map_option ((#) G0) (stepGen P gp 0 G0)))"

text \<open>
  \<^verbatim>\<open>updateHUD\<close>: the generation and the fitness of \<^verbatim>\<open>population[0]\<close> that it shows
  (before \<^verbatim>\<open>toFixed(3)\<close>).  It is called after the first evaluation and after every
  generation.
\<close>

definition updateHUD :: "global \<Rightarrow> nat \<times> fit" where
  "updateHUD G = (gen G, case population G of [] \<Rightarrow> Fin 0 | g # _ \<Rightarrow> fitness g)"

definition generation_log :: "global list \<Rightarrow> (nat \<times> fit) list" where
  "generation_log states = map updateHUD (butlast states)"

definition final_best :: "global list \<Rightarrow> genome option" where
  "final_best states = (case states of [] \<Rightarrow> None | _ \<Rightarrow> lastBest (last states))"

text \<open>The fitness of the best genome so far.\<close>

definition best_fitness :: "global \<Rightarrow> fit" where
  "best_fitness G = (case lastBest G of None \<Rightarrow> NegInfinity | Some g \<Rightarrow> fitness g)"

subsection \<open>Concrete inputs\<close>

text \<open>
  A simple \<^verbatim>\<open>getPoint\<close> to run the model on concrete inputs: the point on the chord
  from the start of the first curve to the end of the last one.
\<close>

definition chord_getPoint :: getPoint where
  "chord_getPoint curves t =
     (case curves of
        [] \<Rightarrow> Vector3 0 0 0
      | c # _ \<Rightarrow> addVectors (v0 c) (multiplyScalar (subVectors (v3 (last curves)) (v0 c)) t))"

text \<open>
  The genome that \<^verbatim>\<open>makeGenome\<close> builds when every random number is \<open>1/2\<close>: four
  control points on the segment from \<open>A\<close> to \<open>B\<close>.
\<close>

definition straight_genome :: genome where
  "straight_genome =
     \<lparr>ctrl = [Vector3 (-9.6) 0 6.4, Vector3 (-3.2) 0 2.8, Vector3 3.2 0 (-0.8), Vector3 9.6 0 (-4.4)],
      fitness = NegInfinity\<rparr>"

text \<open>
  The variables after \<^verbatim>\<open>init\<close>: the first population comes from the generator
  \<^verbatim>\<open>seedRandom(12345)\<close>, and the base positions of the sources are stored.
\<close>

definition global_initial :: global where
  "global_initial =
     (let (pop, s) = makeInitialPopulation PARAMS WORLD_initial (seedRandom 12345)
      in \<lparr>WORLD = WORLD_initial\<lparr>baseSpeakerL := Some (clone (speakerL WORLD_initial)),
                                baseSpeakerR := Some (clone (speakerR WORLD_initial))\<rparr>,
          TARGET = TARGET_default, population = pop, gen = 0, rand_s = s,
          running = False, lastBest = None\<rparr>)"


section \<open>Theorems\<close>

declare fitness_loop.simps [simp del] offspring_loop.simps [simp del] stepGen.simps [simp del]

subsection \<open>The generator\<close>

lemma xorshift32_zero: "xorshift32 0 = 0"
  by (simp add: xorshift32_def)

lemma rand_zero: "rand 0 = (0, 0)"
  by (simp add: rand_def xorshift32_zero)

lemma rand_stream_zero: "rand_stream n 0 = replicate n 0"
  by (induction n) (simp_all add: rand_zero)

lemma rand_state_zero: "rand_state n 0 = 0"
  by (induction n) (simp_all add: rand_zero)

lemma rand_range: "0 \<le> fst (rand s) \<and> fst (rand s) < 1"
proof -
  define u where "u = unat (xorshift32 s)"
  have "u < 2 ^ 32"
    unfolding u_def using unsigned_less [of "xorshift32 s", where ?'a = nat] by simp
  then have "real u < real (2 ^ 32)"
    by (simp only: of_nat_less_iff)
  then have "real u < 4294967296"
    by simp
  moreover have "fst (rand s) = real u / 4294967296"
    unfolding rand_def Let_def fst_conv u_def ..
  ultimately show ?thesis
    by simp
qed

text \<open>The first state after the seed 12345 of the script, as JavaScript computes it.\<close>

lemma xorshift32_12345: "xorshift32 (seedRandom 12345) = 3336926330"
  by (simp add: xorshift32_def seedRandom_def Let_def)

text \<open>
  C10: a generator built from the seed 0 never leaves the state 0: every call of
  \<^verbatim>\<open>rand\<close> returns exactly 0, so the stream is constant, and 0 lies in the range
  \<open>[0, 1)\<close> of the generator.
\<close>

theorem seed_zero_degenerate:
  "rand_state n (seedRandom 0) = 0
   \<and> rand (rand_state n (seedRandom 0)) = (0, 0)
   \<and> rand_stream n (seedRandom 0) = replicate n 0
   \<and> 0 \<le> fst (rand (rand_state n (seedRandom 0)))
   \<and> fst (rand (rand_state n (seedRandom 0))) < 1"
  by (simp add: seedRandom_def rand_state_zero rand_stream_zero rand_zero)

subsection \<open>The curve builder\<close>

lemma clone_ident: "clone p = p"
  by (simp add: clone_def Vector3_def)

text \<open>
  What \<^verbatim>\<open>pathPoints\<close> hands to three.js: a chain of curves that starts at \<open>A\<close> and ends
  at \<open>B\<close>, sampled at the fractions \<open>0\<close> to \<open>1\<close>.  Where the points at the fractions
  \<open>0\<close> and \<open>1\<close> lie is decided by \<^verbatim>\<open>CurvePath.getPoint\<close>.
\<close>

lemma path_curves_ends:
  "path_curves W g \<noteq> [] \<and> v0 (hd (path_curves W g)) = A W \<and> v3 (last (path_curves W g)) = B W"
proof -
  define pts where "pts = [A W] @ ctrl g @ [B W]"
  have c: "path_curves W g = map (segment_curve pts) [0..<Suc (length (ctrl g))]"
    by (simp add: path_curves_def curves_of_def pts_def)
  have h: "hd (path_curves W g) = segment_curve pts 0"
    unfolding c by (simp add: hd_map upt_conv_Cons del: upt_Suc)
  have t: "last (path_curves W g) = segment_curve pts (length (ctrl g))"
    unfolding c by (simp add: last_map)
  have "pts ! 0 = A W" "pts ! (length (ctrl g) + 1) = B W"
    by (simp_all add: pts_def nth_append)
  then show ?thesis
    unfolding h t by (simp add: c segment_curve_def Let_def clone_ident)
qed

lemma pathPoints_first_last:
  assumes "0 < steps"
  shows "hd (pathPoints gp W g steps) = gp (path_curves W g) 0
    \<and> last (pathPoints gp W g steps) = gp (path_curves W g) 1"
proof -
  have "hd (pathPoints gp W g steps) = gp (path_curves W g) 0"
    by (simp add: pathPoints_def getSpacedPoints_def hd_map upt_conv_Cons del: upt_Suc)
  moreover have "last (pathPoints gp W g steps) = gp (path_curves W g) 1"
    using assms by (simp add: pathPoints_def getSpacedPoints_def last_map)
  ultimately show ?thesis by simp
qed

lemma path_curves_fitness: "path_curves W (g\<lparr>fitness := f\<rparr>) = path_curves W g"
  by (simp add: path_curves_def)

lemma pathPoints_fitness: "pathPoints gp W (g\<lparr>fitness := f\<rparr>) steps = pathPoints gp W g steps"
  by (simp add: pathPoints_def path_curves_fitness)

text \<open>
  C5, as stated, fails: for the 80 steps of the fitness evaluation the curve builder
  returns 81 points, not 80.
\<close>

theorem pathPoints_steps_counterexample:
  "length (pathPoints chord_getPoint WORLD_initial straight_genome 80) \<noteq> 80"
  by (simp add: pathPoints_def getSpacedPoints_def)

text \<open>
  C5, amended: for every list of control points and every positive number of steps
  the curve builder returns exactly \<open>steps + 1\<close> points, the ends of the \<open>steps\<close> pieces
  into which \<^verbatim>\<open>getSpacedPoints\<close> divides the path, and it is a pure function: two calls
  with the same list \<open>[A, c1, \<dots>, cK, B]\<close> and the same \<open>steps\<close> return the same
  sequence, whatever else differs in the world and in the genome.
\<close>

theorem pathPoints_count:
  assumes "0 < steps" "[A W] @ ctrl g @ [B W] = [A W2] @ ctrl g2 @ [B W2]"
  shows "length (pathPoints gp W g steps) = steps + 1
     \<and> pathPoints gp W2 g2 steps = pathPoints gp W g steps"
  using assms(2) by (simp add: pathPoints_def getSpacedPoints_def path_curves_def)

theorem pathPoints_count_witness:
  "(0::nat) < 80
   \<and> [A WORLD_initial] @ ctrl straight_genome @ [B WORLD_initial] =
       [A (WORLD_initial\<lparr>speakerL := Vector3 0 0 0\<rparr>)] @ ctrl (straight_genome\<lparr>fitness := Fin 1\<rparr>)
         @ [B (WORLD_initial\<lparr>speakerL := Vector3 0 0 0\<rparr>)]
   \<and> length (pathPoints chord_getPoint WORLD_initial straight_genome 80) = 80 + 1
   \<and> pathPoints chord_getPoint (WORLD_initial\<lparr>speakerL := Vector3 0 0 0\<rparr>)
         (straight_genome\<lparr>fitness := Fin 1\<rparr>) 80 =
       pathPoints chord_getPoint WORLD_initial straight_genome 80"
proof -
  have a: "(0::nat) < 80"
    by simp
  have b: "[A WORLD_initial] @ ctrl straight_genome @ [B WORLD_initial] =
      [A (WORLD_initial\<lparr>speakerL := Vector3 0 0 0\<rparr>)] @ ctrl (straight_genome\<lparr>fitness := Fin 1\<rparr>)
        @ [B (WORLD_initial\<lparr>speakerL := Vector3 0 0 0\<rparr>)]"
    by simp
  from pathPoints_count [OF a b, of chord_getPoint] a b show ?thesis
    by blast
qed

subsection \<open>The fitness evaluator\<close>

text \<open>
  The loop from an index \<open>i > 0\<close> on: it adds the rewards of the points from \<open>i\<close> on
  and the distances of the pairs from \<open>(i - 1, i)\<close> on.
\<close>

lemma fitness_loop_from:
  "0 < i \<Longrightarrow> i \<le> length pts \<Longrightarrow>
   fitness_loop W target pts i s l =
     (s + reward_sum W target (drop i pts),
      l + (\<Sum>(p, q)\<leftarrow>zip (drop (i - 1) pts) (drop i pts). distanceTo p q))"
proof (induction W target pts i s l rule: fitness_loop.induct)
  case (1 W target pts i s l)
  show ?case
  proof (cases "i < length pts")
    case False
    with "1.prems" have "i = length pts" by simp
    then show ?thesis
      by (simp add: fitness_loop.simps [of W target pts "length pts"] reward_sum_def)
  next
    case True
    have d1: "drop i pts = pts ! i # drop (Suc i) pts"
      using True by (simp add: Cons_nth_drop_Suc)
    have d0: "drop (i - 1) pts = pts ! (i - 1) # drop i pts"
      using True "1.prems" Cons_nth_drop_Suc [of "i - 1" pts] by simp
    have step: "fitness_loop W target pts i s l =
        fitness_loop W target pts (i + 1)
          (s + loud target (intensityAtPoint (pts ! i) (speakerL W) 1)
                 (intensityAtPoint (pts ! i) (speakerR W) 1))
          (l + distanceTo (pts ! (i - 1)) (pts ! i))"
      using True "1.prems" by (subst fitness_loop.simps) (simp add: Let_def)
    have ih: "fitness_loop W target pts (i + 1)
          (s + loud target (intensityAtPoint (pts ! i) (speakerL W) 1)
                 (intensityAtPoint (pts ! i) (speakerR W) 1))
          (l + distanceTo (pts ! (i - 1)) (pts ! i)) =
        (s + loud target (intensityAtPoint (pts ! i) (speakerL W) 1)
                 (intensityAtPoint (pts ! i) (speakerR W) 1)
           + reward_sum W target (drop (i + 1) pts),
         l + distanceTo (pts ! (i - 1)) (pts ! i)
           + (\<Sum>(p, q)\<leftarrow>zip (drop (i + 1 - 1) pts) (drop (i + 1) pts). distanceTo p q))"
      using "1.IH" [OF True refl refl refl refl refl] True "1.prems" by (simp add: Let_def)
    have r: "reward_sum W target (drop i pts) =
        loud target (intensityAtPoint (pts ! i) (speakerL W) 1)
          (intensityAtPoint (pts ! i) (speakerR W) 1)
        + reward_sum W target (drop (i + 1) pts)"
      unfolding reward_sum_def by (subst d1) simp
    have "zip (drop (i - 1) pts) (drop i pts) =
        zip (pts ! (i - 1) # drop i pts) (pts ! i # drop (Suc i) pts)"
      using d0 d1 by (rule arg_cong2)
    then have zz: "(\<Sum>(p, q)\<leftarrow>zip (drop (i - 1) pts) (drop i pts). distanceTo p q) =
        distanceTo (pts ! (i - 1)) (pts ! i)
        + (\<Sum>(p, q)\<leftarrow>zip (drop i pts) (drop (i + 1) pts). distanceTo p q)"
      by simp
    show ?thesis
      unfolding step ih r zz by simp
  qed
qed

lemma fitness_loop_all:
  "fitness_loop W target pts 0 0 0 = (reward_sum W target pts, path_length pts)"
proof (cases pts)
  case Nil
  then show ?thesis
    by (simp add: fitness_loop.simps [of W target "[]"] reward_sum_def path_length_def)
next
  case (Cons p ps)
  have "fitness_loop W target pts 0 0 0 =
      fitness_loop W target pts 1
        (loud target (intensityAtPoint p (speakerL W) 1) (intensityAtPoint p (speakerR W) 1)) 0"
    using Cons by (subst fitness_loop.simps) (simp add: Let_def)
  also have "\<dots> = (loud target (intensityAtPoint p (speakerL W) 1) (intensityAtPoint p (speakerR W) 1)
       + reward_sum W target (drop 1 pts),
       0 + (\<Sum>(p, q)\<leftarrow>zip (drop (1 - 1) pts) (drop 1 pts). distanceTo p q))"
    using Cons by (subst fitness_loop_from) simp_all
  finally show ?thesis
    using Cons by (simp add: reward_sum_def path_length_def)
qed

text \<open>
  C7: in the fitness that the evaluator returns, the reward of every sampled point
  is \<open>max Il Ir\<close> in the mode \<^verbatim>\<open>'either'\<close>, which is the mode the script starts in,
  exactly \<open>Il\<close> in the mode \<^verbatim>\<open>'left'\<close> and exactly \<open>Ir\<close> in the mode \<^verbatim>\<open>'right'\<close>, where
  \<open>Il\<close> and \<open>Ir\<close> are the intensities of the left and of the right source at the
  point.
\<close>

theorem reward_by_mode:
  "fst (evaluateFitness gp W ''either'' g) =
     (\<Sum>p\<leftarrow>pathPoints gp W g 80.
        max (intensityAtPoint p (speakerL W) 1) (intensityAtPoint p (speakerR W) 1))
     - 0.25 * (path_length (pathPoints gp W g 80) / 80) + 1
   \<and> fst (evaluateFitness gp W ''left'' g) =
     (\<Sum>p\<leftarrow>pathPoints gp W g 80. intensityAtPoint p (speakerL W) 1)
     - 0.25 * (path_length (pathPoints gp W g 80) / 80) + 1
   \<and> fst (evaluateFitness gp W ''right'' g) =
     (\<Sum>p\<leftarrow>pathPoints gp W g 80. intensityAtPoint p (speakerR W) 1)
     - 0.25 * (path_length (pathPoints gp W g 80) / 80) + 1
   \<and> TARGET global_initial = ''either''
   \<and> loud TARGET_default Il Ir = max Il Ir
   \<and> loud ''either'' Il Ir = max Il Ir
   \<and> loud ''left'' Il Ir = Il
   \<and> loud ''right'' Il Ir = Ir"
proof -
  have "TARGET global_initial = ''either''"
    by (simp add: global_initial_def TARGET_default_def split: prod.splits)
  then show ?thesis
    by (simp add: evaluateFitness_def fitness_loop_all reward_sum_def loud_def TARGET_default_def
        Let_def)
qed

text \<open>
  C6: for every genome the fitness evaluator returns \<open>S - 0.25 * (len / 80) + 1.0\<close>,
  where \<open>S\<close> is the sum of the rewards of all sampled points and \<open>len\<close> the sum of
  the distances between consecutive sampled points.  (In the first version of the
  script the reward of a sample is always \<open>max Il Ir\<close>: the case of the mode
  \<^verbatim>\<open>'either'\<close>.)
\<close>

theorem evaluateFitness_formula:
  "fst (evaluateFitness gp W target g) =
     spec_fitness 0.25 80 1.0
       (reward_sum W target (pathPoints gp W g 80)) (path_length (pathPoints gp W g 80))"
  by (simp add: evaluateFitness_def fitness_loop_all spec_fitness_def Let_def)

lemma evaluateFitness_ctrl: "ctrl (snd (evaluateFitness gp W target g)) = ctrl g"
  by (simp add: evaluateFitness_def Let_def split: prod.splits)

lemma evaluateFitness_stored:
  "fitness (snd (evaluateFitness gp W target g)) = Fin (fst (evaluateFitness gp W target g))"
  by (simp add: evaluateFitness_def Let_def split: prod.splits)

lemma evaluateFitness_ignores_fitness:
  "fst (evaluateFitness gp W target (g\<lparr>fitness := f\<rparr>)) = fst (evaluateFitness gp W target g)"
  by (simp add: evaluateFitness_def Let_def pathPoints_fitness split: prod.splits)

lemma evaluateFitness_again:
  "fst (evaluateFitness gp W target (snd (evaluateFitness gp W target g))) =
   fst (evaluateFitness gp W target g)"
  by (simp add: evaluateFitness_def Let_def pathPoints_fitness split: prod.splits)

text \<open>
  C8: a second call of the fitness evaluator, on the genome as the first call left
  it and in the same world, returns the same number; a call stores the number it
  returns in the field \<^verbatim>\<open>fitness\<close> of the genome and leaves the control points as
  they were.
\<close>

theorem evaluateFitness_pure:
  "fst (evaluateFitness gp W target (snd (evaluateFitness gp W target g))) =
     fst (evaluateFitness gp W target g)
   \<and> fitness (snd (evaluateFitness gp W target g)) = Fin (fst (evaluateFitness gp W target g))
   \<and> ctrl (snd (evaluateFitness gp W target g)) = ctrl g
   \<and> ctrl (snd (evaluateFitness gp W target (snd (evaluateFitness gp W target g)))) = ctrl g
   \<and> fst (evaluateFitness gp W target (g\<lparr>fitness := f\<rparr>)) = fst (evaluateFitness gp W target g)"
  by (simp add: evaluateFitness_again evaluateFitness_stored evaluateFitness_ctrl
      evaluateFitness_ignores_fitness)

subsection \<open>Rounding to doubles\<close>

























subsection \<open>Repositioning the sources\<close>



















subsection \<open>Genomes and operators never fail on a well-formed population\<close>

text \<open>
  Values have no identity, so a clone is the genome itself.
\<close>

lemma cloneGenome_ident: "cloneGenome g = g"
proof -
  have "map clone (ctrl g) = ctrl g"
    by (induction "ctrl g") (simp_all add: clone_ident map_idI)
  then show ?thesis by (simp add: cloneGenome_def)
qed

lemma length_makeGenome_loop:
  "length (fst (makeGenome_loop P W js pts s)) = length pts + length js"
  by (induction js arbitrary: pts s) (simp_all add: Let_def split: prod.splits)

lemma length_makeGenome: "length (ctrl (fst (makeGenome P W s))) = ctrlCount P"
proof -
  obtain pts s' where l: "makeGenome_loop P W [0..<ctrlCount P] [] s = (pts, s')"
    by (cases "makeGenome_loop P W [0..<ctrlCount P] [] s")
  with length_makeGenome_loop [of P W "[0..<ctrlCount P]" "[]" s] show ?thesis
    by (simp add: makeGenome_def)
qed

lemma makeInitialPopulation_loop_wf:
  "list_all (\<lambda>g. length (ctrl g) = ctrlCount P) pop \<Longrightarrow>
   length (fst (makeInitialPopulation_loop P W n pop s)) = length pop + n
   \<and> list_all (\<lambda>g. length (ctrl g) = ctrlCount P) (fst (makeInitialPopulation_loop P W n pop s))"
proof (induction n arbitrary: pop s)
  case 0
  then show ?case by simp
next
  case (Suc n)
  obtain g s' where mg: "makeGenome P W s = (g, s')"
    by (cases "makeGenome P W s")
  have "length (ctrl g) = ctrlCount P"
    using length_makeGenome [of P W s] mg by simp
  with Suc.prems have "list_all (\<lambda>g. length (ctrl g) = ctrlCount P) (pop @ [g])"
    by simp
  from Suc.IH [OF this, of s'] show ?case
    by (simp add: mg)
qed

lemma makeInitialPopulation_wf:
  "length (fst (makeInitialPopulation P W s)) = popSize P
   \<and> list_all (\<lambda>g. length (ctrl g) = ctrlCount P) (fst (makeInitialPopulation P W s))"
  using makeInitialPopulation_loop_wf [of P "[]" W "popSize P" s]
  by (simp add: makeInitialPopulation_def)

lemma length_evaluate_all: "length (evaluate_all gp W target pop) = length pop"
  by (simp add: evaluate_all_def)

lemma evaluate_all_wf:
  "list_all (\<lambda>g. length (ctrl g) = n) pop \<Longrightarrow>
   list_all (\<lambda>g. length (ctrl g) = n) (evaluate_all gp W target pop)"
  by (simp add: evaluate_all_def list_all_iff evaluateFitness_ctrl)

lemma set_insert_desc: "set (insert_desc g hs) = insert g (set hs)"
  by (induction hs) auto

lemma length_insert_desc: "length (insert_desc g hs) = Suc (length hs)"
  by (induction hs) auto

lemma set_sort_desc: "set (sort_desc pop) = set pop"
  by (induction pop) (simp_all add: sort_desc_def set_insert_desc)

lemma length_sort_desc: "length (sort_desc pop) = length pop"
  by (induction pop) (simp_all add: sort_desc_def length_insert_desc)

lemma sort_desc_wf:
  "list_all Q pop \<Longrightarrow> list_all Q (sort_desc pop)"
  by (simp add: list_all_iff set_sort_desc)

text \<open>
  The sorted population is in descending order of fitness, so no genome of the
  population is fitter than \<^verbatim>\<open>population[0]\<close>, the elite of the next generation.
\<close>

lemma fit_gt_trans_le: "\<not> fit_gt b a \<Longrightarrow> \<not> fit_gt c b \<Longrightarrow> \<not> fit_gt c a"
  by (cases a; cases b; cases c) simp_all

lemma fit_gt_asym: "fit_gt a b \<Longrightarrow> \<not> fit_gt b a"
  by (cases a; cases b) simp_all

lemma sorted_insert_desc:
  "sorted_wrt (\<lambda>a b. \<not> fit_gt (fitness b) (fitness a)) hs \<Longrightarrow>
   sorted_wrt (\<lambda>a b. \<not> fit_gt (fitness b) (fitness a)) (insert_desc g hs)"
proof (induction hs)
  case Nil
  then show ?case by simp
next
  case (Cons h hs)
  show ?case
  proof (cases "fit_gt (fitness h) (fitness g)")
    case True
    then have "\<not> fit_gt (fitness g) (fitness h)"
      by (rule fit_gt_asym)
    with True Cons show ?thesis
      by (auto simp: set_insert_desc)
  next
    case False
    have "\<forall>k\<in>set hs. \<not> fit_gt (fitness k) (fitness g)"
    proof
      fix k
      assume "k \<in> set hs"
      with Cons.prems have "\<not> fit_gt (fitness k) (fitness h)"
        by simp
      with False show "\<not> fit_gt (fitness k) (fitness g)"
        by (rule fit_gt_trans_le)
    qed
    with False Cons.prems show ?thesis
      by simp
  qed
qed

lemma sort_desc_sorted:
  "sorted_wrt (\<lambda>a b. \<not> fit_gt (fitness b) (fitness a)) (sort_desc pop)"
  by (induction pop) (simp_all add: sort_desc_def sorted_insert_desc)

lemma sort_desc_hd:
  assumes "g \<in> set pop"
  shows "\<not> fit_gt (fitness g) (fitness (hd (sort_desc pop)))"
proof -
  from assms have ne: "sort_desc pop \<noteq> []"
    using set_sort_desc [of pop] by auto
  then obtain h hs where s: "sort_desc pop = h # hs"
    by (cases "sort_desc pop") simp_all
  have "g \<in> set (h # hs)"
    using assms set_sort_desc [of pop] s by simp
  moreover have "sorted_wrt (\<lambda>a b. \<not> fit_gt (fitness b) (fitness a)) (h # hs)"
    using sort_desc_sorted [of pop] s by simp
  moreover have "\<not> fit_gt (fitness h) (fitness h)"
    by (cases "fitness h") simp_all
  ultimately show ?thesis
    unfolding s by auto
qed

lemma random_index_less:
  assumes "0 < n"
  shows "random_index (fst (rand s)) n < n"
proof -
  have r: "0 \<le> fst (rand s)" "fst (rand s) < 1"
    using rand_range [of s] by simp_all
  have "fst (rand s) * real n < real n"
    using r assms by simp
  then have "\<lfloor>fst (rand s) * real n\<rfloor> < int n"
    by (simp add: floor_less_iff)
  moreover have "0 \<le> \<lfloor>fst (rand s) * real n\<rfloor>"
    using r by simp
  ultimately show ?thesis
    unfolding random_index_def by linarith
qed

lemma tournament_loop_total:
  assumes "pop \<noteq> []"
  shows "(\<forall>b. best = Some b \<longrightarrow> b \<in> set pop) \<Longrightarrow>
     \<exists>res s'. tournament_loop pop k best s = Some (res, s')
       \<and> (\<forall>b. res = Some b \<longrightarrow> b \<in> set pop) \<and> (0 < k \<or> best \<noteq> None \<longrightarrow> res \<noteq> None)"
proof (induction k arbitrary: best s)
  case 0
  then show ?case by simp
next
  case (Suc k)
  obtain r s1 where rs: "rand s = (r, s1)"
    by (cases "rand s")
  have "random_index r (length pop) < length pop"
    using random_index_less [of "length pop" s] assms rs by simp
  then obtain g where g: "nth_opt pop (random_index r (length pop)) = Some g" "g \<in> set pop"
    by (simp add: nth_opt_def)
  show ?case
  proof (cases best)
    case None
    from Suc.IH [of "Some g" s1] g obtain res s' where
      "tournament_loop pop k (Some g) s1 = Some (res, s')"
      "\<forall>b. res = Some b \<longrightarrow> b \<in> set pop" "res \<noteq> None"
      by auto
    then show ?thesis using None rs g by simp
  next
    case (Some b)
    let ?nb = "if fit_gt (fitness g) (fitness b) then Some g else best"
    have "\<forall>c. ?nb = Some c \<longrightarrow> c \<in> set pop"
      using Some Suc.prems g by auto
    moreover have "?nb \<noteq> None"
      using Some by simp
    ultimately obtain res s' where
      "tournament_loop pop k ?nb s1 = Some (res, s')"
      "\<forall>b. res = Some b \<longrightarrow> b \<in> set pop" "res \<noteq> None"
      using Suc.IH [of ?nb s1] by blast
    moreover have "tournament_loop pop (Suc k) best s = tournament_loop pop k ?nb s1"
      using Some rs g by simp
    ultimately show ?thesis by simp
  qed
qed

lemma tournamentSelect_total:
  assumes "pop \<noteq> []"
  shows "\<exists>g s'. tournamentSelect pop 3 s = Some (g, s') \<and> g \<in> set pop"
proof -
  from tournament_loop_total [OF assms, of None 3 s] obtain res s' where
    t: "tournament_loop pop 3 None s = Some (res, s')"
    "\<forall>b. res = Some b \<longrightarrow> b \<in> set pop" "res \<noteq> None"
    by auto
  then obtain b where "res = Some b" "b \<in> set pop" by auto
  then show ?thesis using t by (simp add: tournamentSelect_def cloneGenome_ident)
qed

lemma crossover_loop_total:
  "(\<forall>i\<in>set js. i < length (ctrl a) \<and> i < length (ctrl b)) \<Longrightarrow>
   \<exists>res s'. crossover_loop a b js pts s = Some (res, s') \<and> length res = length pts + length js"
proof (induction js arbitrary: pts s)
  case Nil
  then show ?case by simp
next
  case (Cons i js)
  obtain r s1 where r: "rand s = (r, s1)" by (cases "rand s")
  obtain t s2 where t: "rand s1 = (t, s2)" by (cases "rand s1")
  have n: "nth_opt (ctrl a) i = Some (ctrl a ! i)" "nth_opt (ctrl b) i = Some (ctrl b ! i)"
    using Cons.prems by (simp_all add: nth_opt_def)
  have "\<exists>p. crossover_loop a b (i # js) pts s = crossover_loop a b js (pts @ [p]) s2"
    by (auto simp: r t n Let_def)
  then obtain p where p: "crossover_loop a b (i # js) pts s = crossover_loop a b js (pts @ [p]) s2"
    by blast
  have "\<forall>i\<in>set js. i < length (ctrl a) \<and> i < length (ctrl b)"
    using Cons.prems by simp
  from Cons.IH [OF this, of "pts @ [p]" s2] show ?case
    unfolding p by simp
qed

lemma crossover_total:
  assumes "length (ctrl a) = ctrlCount P" "length (ctrl b) = ctrlCount P"
  shows "\<exists>c s'. crossover P a b s = Some (c, s') \<and> length (ctrl c) = ctrlCount P"
proof -
  have "\<forall>i\<in>set [0..<ctrlCount P]. i < length (ctrl a) \<and> i < length (ctrl b)"
    using assms by simp
  from crossover_loop_total [OF this, of "[]" s] obtain res s' where
    "crossover_loop a b [0..<ctrlCount P] [] s = Some (res, s')" "length res = ctrlCount P"
    by auto
  then show ?thesis by (simp add: crossover_def)
qed

lemma length_mutate_loop: "length (fst (mutate_loop P ps s)) = length ps"
proof (induction ps arbitrary: s)
  case Nil
  then show ?case by simp
next
  case (Cons p ps)
  obtain r s1 where r: "rand s = (r, s1)" by (cases "rand s")
  obtain rx s2 where rx: "rand s1 = (rx, s2)" by (cases "rand s1")
  obtain rz s3 where rz: "rand s2 = (rz, s3)" by (cases "rand s2")
  obtain ps1 t1 where m1: "mutate_loop P ps s3 = (ps1, t1)" by (cases "mutate_loop P ps s3")
  obtain ps2 t2 where m2: "mutate_loop P ps s1 = (ps2, t2)" by (cases "mutate_loop P ps s1")
  have "length ps1 = length ps" "length ps2 = length ps"
    using Cons.IH [of s3] Cons.IH [of s1] m1 m2 by simp_all
  then show ?case
    by (simp add: r rx rz m1 m2)
qed

lemma length_mutate: "length (ctrl (fst (mutate P g s))) = length (ctrl g)"
proof -
  obtain pts s' where l: "mutate_loop P (ctrl g) s = (pts, s')"
    by (cases "mutate_loop P (ctrl g) s")
  with length_mutate_loop [of P "ctrl g" s] show ?thesis
    by (simp add: mutate_def cloneGenome_ident)
qed

lemma offspring_total:
  assumes "pop \<noteq> []" "list_all (\<lambda>g. length (ctrl g) = ctrlCount P) pop"
  shows "\<exists>c s'. offspring P pop s = Some (c, s') \<and> length (ctrl c) = ctrlCount P"
proof -
  from tournamentSelect_total [OF assms(1), of s] obtain p1 s1 where
    p1: "tournamentSelect pop 3 s = Some (p1, s1)" "p1 \<in> set pop" by auto
  from tournamentSelect_total [OF assms(1), of s1] obtain p2 s2 where
    p2: "tournamentSelect pop 3 s1 = Some (p2, s2)" "p2 \<in> set pop" by auto
  have l: "length (ctrl p1) = ctrlCount P" "length (ctrl p2) = ctrlCount P"
    using assms(2) p1 p2 by (simp_all add: list_all_iff)
  obtain r s3 where r: "rand s2 = (r, s3)" by (cases "rand s2")
  obtain r' s4 where r': "rand s3 = (r', s4)" by (cases "rand s3")
  from crossover_total [OF l, of s3] obtain c s5 where
    c: "crossover P p1 p2 s3 = Some (c, s5)" "length (ctrl c) = ctrlCount P" by auto
  show ?thesis
  proof (cases "r < crossProb P")
    case True
    obtain m s6 where m: "mutate P c s5 = (m, s6)" by (cases "mutate P c s5")
    then have "length (ctrl m) = ctrlCount P"
      using length_mutate [of P c s5] c by simp
    then show ?thesis using True p1 p2 r c m by (simp add: offspring_def)
  next
    case False
    define c' where "c' = (if r' < 0.5 then cloneGenome p1 else cloneGenome p2)"
    have lc: "length (ctrl c') = ctrlCount P"
      using l by (simp add: c'_def cloneGenome_ident)
    obtain m s6 where m: "mutate P c' s4 = (m, s6)" by (cases "mutate P c' s4")
    then have "length (ctrl m) = ctrlCount P"
      using length_mutate [of P c' s4] lc by simp
    moreover have "offspring P pop s = Some (mutate P c' s4)"
      using False p1 p2 r r' by (simp add: offspring_def c'_def)
    ultimately show ?thesis using m by simp
  qed
qed

lemma offspring_loop_total:
  assumes "pop \<noteq> []" "list_all (\<lambda>g. length (ctrl g) = ctrlCount P) pop"
  shows "list_all (\<lambda>g. length (ctrl g) = ctrlCount P) newPop \<Longrightarrow> length newPop \<le> popSize P \<Longrightarrow>
    \<exists>res s'. offspring_loop P pop newPop s = Some (res, s') \<and> length res = popSize P
       \<and> list_all (\<lambda>g. length (ctrl g) = ctrlCount P) res"
proof (induction "popSize P - length newPop" arbitrary: newPop s)
  case 0
  then show ?case
    by (subst offspring_loop.simps) simp
next
  case (Suc n)
  then have less: "length newPop < popSize P"
    by simp
  from offspring_total [OF assms, of s] obtain c s' where
    c: "offspring P pop s = Some (c, s')" "length (ctrl c) = ctrlCount P" by auto
  have "n = popSize P - length (newPop @ [c])"
    "list_all (\<lambda>g. length (ctrl g) = ctrlCount P) (newPop @ [c])"
    "length (newPop @ [c]) \<le> popSize P"
    using Suc.prems Suc.hyps(2) c less by simp_all
  from Suc.hyps(1) [OF this, of s'] show ?case
    using less c by (subst offspring_loop.simps) simp
qed

subsection \<open>One generation and the whole run\<close>

lemma next_generation_total:
  assumes "1 \<le> popSize P" "length (population G) = popSize P"
    "list_all (\<lambda>g. length (ctrl g) = ctrlCount P) (population G)"
  shows "\<exists>G'. next_generation P gp G = Some G'
     \<and> length (population G') = popSize P
     \<and> list_all (\<lambda>g. length (ctrl g) = ctrlCount P) (population G')
     \<and> gen G' = gen G + 1 \<and> running G' = running G
     \<and> WORLD G' = WORLD G \<and> TARGET G' = TARGET G"
proof -
  from assms obtain elite rest where pop: "population G = elite # rest"
    by (cases "population G") simp_all
  have ne: "population G \<noteq> []"
    using pop by simp
  have "list_all (\<lambda>g. length (ctrl g) = ctrlCount P) [cloneGenome elite]"
    "length [cloneGenome elite] \<le> popSize P"
    using assms pop by (simp_all add: cloneGenome_ident)
  from offspring_loop_total [OF ne assms(3) this, of "rand_s G"] obtain newPop s' where
    np: "offspring_loop P (population G) [cloneGenome elite] (rand_s G) = Some (newPop, s')"
      "length newPop = popSize P" "list_all (\<lambda>g. length (ctrl g) = ctrlCount P) newPop"
    by auto
  define sorted_pop where "sorted_pop = sort_desc (evaluate_all gp (WORLD G) (TARGET G) newPop)"
  have l: "length sorted_pop = popSize P"
    by (simp add: sorted_pop_def length_sort_desc length_evaluate_all np)
  have w: "list_all (\<lambda>g. length (ctrl g) = ctrlCount P) sorted_pop"
    unfolding sorted_pop_def by (intro sort_desc_wf evaluate_all_wf np)
  from l assms(1) obtain head tail where sp: "sorted_pop = head # tail"
    by (cases sorted_pop) simp_all
  have np': "offspring_loop P (elite # rest) [cloneGenome elite] (rand_s G) = Some (newPop, s')"
    using np(1) pop by simp
  have sp': "sort_desc (evaluate_all gp (WORLD G) (TARGET G) newPop) = head # tail"
    using sp by (simp add: sorted_pop_def)
  show ?thesis
    using l w unfolding sp
    by (simp add: next_generation_def pop np' sp')
qed

lemma next_generation_best:
  assumes "next_generation P gp G = Some G'" "lastBest G \<noteq> None"
  shows "lastBest G' = lastBest G \<or> fit_gt (best_fitness G') (best_fitness G)"
  using assms
  by (auto simp: next_generation_def best_fitness_def cloneGenome_ident
      split: list.splits option.splits if_splits)

lemma next_generation_lastBest:
  assumes "next_generation P gp G = Some G'"
  shows "lastBest G' \<noteq> None"
  using assms
  by (auto simp: next_generation_def split: list.splits option.splits if_splits)

lemma stepGen_total:
  assumes "1 \<le> popSize P"
  shows "length (population G) = popSize P \<Longrightarrow>
     list_all (\<lambda>g. length (ctrl g) = ctrlCount P) (population G) \<Longrightarrow>
     i \<le> generations P \<Longrightarrow>
     \<exists>gs. stepGen P gp i G = Some gs
       \<and> length gs = generations P - i + 1
       \<and> list_all (\<lambda>G'. length (population G') = popSize P) gs
       \<and> map gen gs = [gen G + 1..<gen G + (generations P - i) + 1] @ [gen G + (generations P - i)]"
proof (induction "generations P - i" arbitrary: i G)
  case 0
  then have "generations P \<le> i" by simp
  then show ?case
    using 0 by (subst stepGen.simps) simp
next
  case (Suc n)
  then have less: "\<not> generations P \<le> i" by simp
  from next_generation_total [OF assms Suc.prems(1,2), of gp] obtain G' where
    G': "next_generation P gp G = Some G'" "length (population G') = popSize P"
      "list_all (\<lambda>g. length (ctrl g) = ctrlCount P) (population G')" "gen G' = gen G + 1"
    by auto
  have "n = generations P - (i + 1)" "i + 1 \<le> generations P"
    using Suc.hyps(2) by simp_all
  from Suc.hyps(1) [OF this(1) G'(2,3) this(2)] obtain gs where
    gs: "stepGen P gp (i + 1) G' = Some gs" "length gs = generations P - (i + 1) + 1"
      "list_all (\<lambda>G'. length (population G') = popSize P) gs"
      "map gen gs = [gen G' + 1..<gen G' + (generations P - (i + 1)) + 1]
         @ [gen G' + (generations P - (i + 1))]"
    by auto
  have step: "stepGen P gp i G = Some (G' # gs)"
    using less G'(1) gs(1) by (subst stepGen.simps) simp
  define d where "d = generations P - (i + 1)"
  have d: "generations P - i = d + 1"
    using less by (simp add: d_def)
  have "[gen G + 1..<gen G + (d + 1) + 1] = (gen G + 1) # [Suc (gen G + 1)..<gen G + (d + 1) + 1]"
    by (rule upt_conv_Cons) simp
  then have "map gen (G' # gs) = [gen G + 1..<gen G + (d + 1) + 1] @ [gen G + (d + 1)]"
    using gs(4) G'(4) by (simp add: d_def del: upt_Suc)
  then show ?case
    unfolding step d using gs(2,3) G'(2) by (simp add: d_def)
qed

lemma stepGen_monotone:
  "stepGen P gp i G = Some gs \<Longrightarrow> lastBest G \<noteq> None \<Longrightarrow>
   successively (\<lambda>a b. lastBest b = lastBest a \<or> fit_gt (best_fitness b) (best_fitness a)) (G # gs)"
proof (induction "generations P - i" arbitrary: i G gs)
  case 0
  then have "generations P \<le> i" by simp
  then have "gs = [G\<lparr>running := False\<rparr>]"
    using 0 by (subst (asm) stepGen.simps) simp
  then show ?case by simp
next
  case (Suc n)
  then have less: "\<not> generations P \<le> i" by simp
  from Suc.prems(1) less obtain G' gs' where
    G': "next_generation P gp G = Some G'" "stepGen P gp (i + 1) G' = Some gs'" "gs = G' # gs'"
    by (subst (asm) stepGen.simps) (auto split: option.splits)
  have "n = generations P - (i + 1)"
    using Suc.hyps(2) by simp
  from Suc.hyps(1) [OF this G'(2) next_generation_lastBest [OF G'(1)]]
  show ?case
    using next_generation_best [OF G'(1) Suc.prems(2)] G'(3) by simp
qed

lemma start_run_total:
  assumes "1 \<le> popSize P"
  shows "\<exists>G0. start_run P gp r play target G = Some G0
    \<and> length (population G0) = popSize P
    \<and> list_all (\<lambda>g. length (ctrl g) = ctrlCount P) (population G0)
    \<and> gen G0 = 0 \<and> lastBest G0 \<noteq> None"
proof -
  define s0 where "s0 = seedRandom (seed_of r)"
  obtain W s1 where j: "(if \<not> play then jitterSpeakers 2.5 (WORLD G) s0 else (WORLD G, s0)) = (W, s1)"
    by (cases "if \<not> play then jitterSpeakers 2.5 (WORLD G) s0 else (WORLD G, s0)")
  define tgt where "tgt = (if target = [] then TARGET G else target)"
  obtain pop s2 where mp: "makeInitialPopulation P W s1 = (pop, s2)"
    by (cases "makeInitialPopulation P W s1")
  have pw: "length pop = popSize P" "list_all (\<lambda>g. length (ctrl g) = ctrlCount P) pop"
    using makeInitialPopulation_wf [of P W s1] mp by simp_all
  define sorted_pop where "sorted_pop = sort_desc (evaluate_all gp W tgt pop)"
  have l: "length sorted_pop = popSize P"
    by (simp add: sorted_pop_def length_sort_desc length_evaluate_all pw)
  have w: "list_all (\<lambda>g. length (ctrl g) = ctrlCount P) sorted_pop"
    unfolding sorted_pop_def by (intro sort_desc_wf evaluate_all_wf pw)
  from l assms obtain head tail where sp: "sorted_pop = head # tail"
    by (cases sorted_pop) simp_all
  have sp': "sort_desc (evaluate_all gp W tgt pop) = head # tail"
    using sp by (simp add: sorted_pop_def)
  have "start_run P gp r play target G =
      Some (G\<lparr>WORLD := W, TARGET := tgt, population := head # tail, gen := 0,
              rand_s := s2, running := True, lastBest := Some (cloneGenome head)\<rparr>)"
    unfolding start_run_def Let_def s0_def [symmetric] j tgt_def [symmetric]
    by (simp add: mp sp')
  then show ?thesis
    using l w unfolding sp by simp
qed

lemma start_run_independent:
  assumes "WORLD G1 = WORLD G2" "TARGET G1 = TARGET G2" "seed_of r1 = seed_of r2"
  shows "start_run P gp r1 play target G1 = start_run P gp r2 play target G2"
proof -
  have "\<And>W tgt pop n s b lb.
      G1\<lparr>WORLD := W, TARGET := tgt, population := pop, gen := n,
          rand_s := s, running := b, lastBest := lb\<rparr> =
      G2\<lparr>WORLD := W, TARGET := tgt, population := pop, gen := n,
          rand_s := s, running := b, lastBest := lb\<rparr>"
    by (cases G1, cases G2) simp
  then show ?thesis
    unfolding start_run_def Let_def assms
    by (simp split: prod.splits list.splits)
qed

lemma fit_le_refl: "fit_le a a"
  by (cases a) (simp_all add: fit_le_def)

lemma fit_gt_imp_le: "fit_gt b a \<Longrightarrow> fit_le a b"
  by (cases a; cases b) (simp_all add: fit_le_def)

lemma fit_le_trans: "fit_le a b \<Longrightarrow> fit_le b c \<Longrightarrow> fit_le a c"
  by (cases a; cases b; cases c) (simp_all add: fit_le_def)

lemma best_fitness_sorted:
  assumes "successively (\<lambda>a b. lastBest b = lastBest a \<or> fit_gt (best_fitness b) (best_fitness a)) gs"
  shows "sorted_wrt fit_le (map best_fitness gs)"
proof -
  have "successively (\<lambda>a b. fit_le (best_fitness a) (best_fitness b)) gs"
    using assms
    by (rule successively_mono) (auto simp: best_fitness_def fit_le_refl fit_gt_imp_le)
  then have "successively fit_le (map best_fitness gs)"
    by (simp add: successively_map)
  moreover have "transp fit_le"
    by (rule transpI) (rule fit_le_trans)
  ultimately show ?thesis
    by (simp add: successively_conv_sorted_wrt)
qed

text \<open>
  A run that starts while no run is going on, with a population size of at least 1,
  never throws: it has a first state and the states of all the calls of
  \<^verbatim>\<open>stepGen\<close>.
\<close>

lemma runEvolution_history:
  assumes "1 \<le> popSize P" "\<not> running G"
  shows "\<exists>G0 gs. runEvolution P gp r play target G = Some (G0 # gs)
     \<and> stepGen P gp 0 G0 = Some gs
     \<and> length (population G0) = popSize P \<and> gen G0 = 0 \<and> lastBest G0 \<noteq> None
     \<and> length gs = generations P + 1
     \<and> list_all (\<lambda>G'. length (population G') = popSize P) gs
     \<and> map gen gs = [1..<generations P + 1] @ [generations P]"
proof -
  from start_run_total [OF assms(1), of gp r play target G] obtain G0 where
    G0: "start_run P gp r play target G = Some G0" "length (population G0) = popSize P"
      "list_all (\<lambda>g. length (ctrl g) = ctrlCount P) (population G0)" "gen G0 = 0"
      "lastBest G0 \<noteq> None"
    by auto
  from stepGen_total [OF assms(1) G0(2,3), of 0 gp] obtain gs where
    gs: "stepGen P gp 0 G0 = Some gs" "length gs = generations P + 1"
      "list_all (\<lambda>G'. length (population G') = popSize P) gs"
      "map gen gs = [1..<generations P + 1] @ [generations P]"
    using G0(4) by auto
  have "runEvolution P gp r play target G = Some (G0 # gs)"
    using assms(2) G0(1) gs(1) by (simp add: runEvolution_def)
  then show ?thesis
    using G0 gs by blast
qed

subsection \<open>The claims about a run\<close>

text \<open>
  C2: in a run with a population size \<open>N \<ge> 1\<close>, the population has exactly \<open>N\<close>
  genomes after the first evaluation (generation 0) and after every generation step,
  that is after the elite and the offspring are in and the new population is
  evaluated and sorted, up to the generation budget.  The run has a state for each
  generation \<open>0, \<dots>, generations\<close> and one more for the last call of \<^verbatim>\<open>stepGen\<close>, which
  only ends the run.
\<close>

theorem population_size_invariant:
  assumes "1 \<le> popSize P" "\<not> running G"
  shows "\<exists>gs. runEvolution P gp r play target G = Some gs
     \<and> length gs = generations P + 2
     \<and> map gen gs = [0..<generations P + 1] @ [generations P]
     \<and> list_all (\<lambda>G'. length (population G') = popSize P) gs"
proof -
  from runEvolution_history [OF assms, of gp r play target] obtain G0 gs where
    h: "runEvolution P gp r play target G = Some (G0 # gs)"
      "length (population G0) = popSize P" "gen G0 = 0"
      "length gs = generations P + 1"
      "list_all (\<lambda>G'. length (population G') = popSize P) gs"
      "map gen gs = [1..<generations P + 1] @ [generations P]"
    by blast
  have "[0..<generations P + 1] = 0 # [1..<generations P + 1]"
    by (simp add: upt_conv_Cons)
  then show ?thesis
    using h by simp
qed

theorem population_size_invariant_witness:
  "1 \<le> popSize PARAMS \<and> \<not> running global_initial
   \<and> (\<exists>gs. runEvolution PARAMS chord_getPoint 0.5 True ''either'' global_initial = Some gs
       \<and> length gs = generations PARAMS + 2
       \<and> map gen gs = [0..<generations PARAMS + 1] @ [generations PARAMS]
       \<and> list_all (\<lambda>G'. length (population G') = popSize PARAMS) gs)"
proof -
  have a: "1 \<le> popSize PARAMS"
    by (simp add: PARAMS_def)
  have b: "\<not> running global_initial"
    by (simp add: global_initial_def split: prod.splits)
  from population_size_invariant [OF a b, of chord_getPoint "0.5" True "''either''"] a b
  show ?thesis
    by blast
qed

text \<open>
  C3: in a run, the fitness of the best genome so far, taken after the first
  evaluation and after every call of \<^verbatim>\<open>stepGen\<close>, never decreases, and from one state
  to the next the best genome so far either stays as it is or is replaced by a genome
  of strictly greater fitness.
\<close>

theorem best_ever_monotone:
  assumes "1 \<le> popSize P" "\<not> running G"
  shows "\<exists>gs. runEvolution P gp r play target G = Some gs
     \<and> sorted_wrt fit_le (map best_fitness gs)
     \<and> successively
         (\<lambda>a b. lastBest b = lastBest a \<or> fit_gt (best_fitness b) (best_fitness a)) gs"
proof -
  from runEvolution_history [OF assms, of gp r play target] obtain G0 gs where
    h: "runEvolution P gp r play target G = Some (G0 # gs)"
      "stepGen P gp 0 G0 = Some gs" "lastBest G0 \<noteq> None"
    by blast
  have "successively
      (\<lambda>a b. lastBest b = lastBest a \<or> fit_gt (best_fitness b) (best_fitness a)) (G0 # gs)"
    by (rule stepGen_monotone [OF h(2,3)])
  with best_fitness_sorted [OF this] show ?thesis
    using h(1) by simp
qed

theorem best_ever_monotone_witness:
  "1 \<le> popSize PARAMS \<and> \<not> running global_initial
   \<and> (\<exists>gs. runEvolution PARAMS chord_getPoint 0.25 False ''left'' global_initial = Some gs
       \<and> sorted_wrt fit_le (map best_fitness gs)
       \<and> successively
           (\<lambda>a b. lastBest b = lastBest a \<or> fit_gt (best_fitness b) (best_fitness a)) gs)"
proof -
  have a: "1 \<le> popSize PARAMS"
    by (simp add: PARAMS_def)
  have b: "\<not> running global_initial"
    by (simp add: global_initial_def split: prod.splits)
  from best_ever_monotone [OF a b, of chord_getPoint "0.25" False "''left''"] a b
  show ?thesis
    by blast
qed

text \<open>
  C1: two runs with the same parameters, the same world and mode, and the same seed
  (the number that \<^verbatim>\<open>runEvolution\<close> makes of \<^verbatim>\<open>Math.random()\<close>) go through the same
  states, whatever population, generation counter, generator and best genome an
  earlier run has left: they show the same sequence of generation and best fitness
  and end with the same best genome.
\<close>

theorem run_deterministic:
  assumes "WORLD G1 = WORLD G2" "TARGET G1 = TARGET G2" "seed_of r1 = seed_of r2"
    "\<not> running G1" "\<not> running G2"
  shows "runEvolution P gp r1 play target G1 = runEvolution P gp r2 play target G2
     \<and> map_option generation_log (runEvolution P gp r1 play target G1) =
         map_option generation_log (runEvolution P gp r2 play target G2)
     \<and> map_option final_best (runEvolution P gp r1 play target G1) =
         map_option final_best (runEvolution P gp r2 play target G2)"
proof -
  have "runEvolution P gp r1 play target G1 = runEvolution P gp r2 play target G2"
    using assms(4,5) start_run_independent [OF assms(1,2,3), of P gp play target]
    by (simp add: runEvolution_def)
  then show ?thesis
    by simp
qed

theorem run_deterministic_witness:
  "WORLD global_initial = WORLD (global_initial\<lparr>population := [], gen := 45\<rparr>)
   \<and> TARGET global_initial = TARGET (global_initial\<lparr>population := [], gen := 45\<rparr>)
   \<and> seed_of 0.5 = seed_of 0.5000000001
   \<and> \<not> running global_initial
   \<and> \<not> running (global_initial\<lparr>population := [], gen := 45\<rparr>)
   \<and> runEvolution PARAMS chord_getPoint 0.5 True ''either'' global_initial =
       runEvolution PARAMS chord_getPoint 0.5000000001 True ''either''
         (global_initial\<lparr>population := [], gen := 45\<rparr>)
   \<and> map_option generation_log
         (runEvolution PARAMS chord_getPoint 0.5 True ''either'' global_initial) =
       map_option generation_log
         (runEvolution PARAMS chord_getPoint 0.5000000001 True ''either''
           (global_initial\<lparr>population := [], gen := 45\<rparr>))
   \<and> map_option final_best
         (runEvolution PARAMS chord_getPoint 0.5 True ''either'' global_initial) =
       map_option final_best
         (runEvolution PARAMS chord_getPoint 0.5000000001 True ''either''
           (global_initial\<lparr>population := [], gen := 45\<rparr>))"
proof -
  have a: "WORLD global_initial = WORLD (global_initial\<lparr>population := [], gen := 45\<rparr>)"
    and b: "TARGET global_initial = TARGET (global_initial\<lparr>population := [], gen := 45\<rparr>)"
    by simp_all
  have c: "seed_of 0.5 = seed_of 0.5000000001"
    by (simp add: seed_of_def)
  have d: "\<not> running global_initial"
    and e: "\<not> running (global_initial\<lparr>population := [], gen := 45\<rparr>)"
    by (simp_all add: global_initial_def split: prod.splits)
  from run_deterministic [OF a b c d e, of PARAMS chord_getPoint True "''either''"] a b c d e
  show ?thesis
    by blast
qed

end
